theory Spec2Isabelle
  imports Main
begin

section \<open>Data model\<close>

text \<open>
  The virsh machine driver of docker-e2e (package \<open>machines\<close>) and the swarm bootstrap
  of \<open>testkit create\<close> (package \<open>cmd\<close>), as functions over an explicit world.

  Everything the Go code does outside its own memory is an effect on a \<open>world\<close> value:
  the files that exist, the process environment, the subprocesses started (in order),
  the log lines written, the engine-API calls made, and a clock in milliseconds.
  What the outside answers (a subprocess's output and exit status, how long it ran,
  what it did to the file system, what the engine API returned) comes from an \<open>env\<close>
  value that the theorems quantify over.
\<close>

text \<open>How a subprocess ended: with an exit status, or it could not be started.\<close>

datatype proc_status = Exited nat | StartFailed

text \<open>
  Go \<open>error\<close> values. A \<open>fmt.Errorf\<close> of the source is one constructor carrying the
  arguments of its format string:
  \<^item> \<open>ErrDiskDirUnset\<close>: "To use the vrish driver, you must set VIRSH_DISK_DIR ..."
  \<^item> \<open>ErrWindows\<close>: "Windows not yet supported for virsh"
  \<^item> \<open>ErrLocate p e\<close>: "Unable to locate %s: %s"
  \<^item> \<open>ErrCreateTimeout n\<close>: "Unable to create %d machines within timeout"
  \<^item> \<open>ErrCloneExists c b\<close>: "Linked clone %s of base disk %s already exists!"
  \<^item> \<open>ErrCloneFailed c b out e\<close>: "Failed to create linked clone %s on %s: %s: %s"
  \<^item> \<open>ErrDefineFailed n e out\<close>: "Failed to create %s: %s: %s"
  \<^item> \<open>ErrVerifyTimeout n\<close>: "Unable to verify docker engine on %s within timeout"
  \<^item> \<open>ExitError s\<close>: what \<open>exec.Cmd.CombinedOutput\<close> returns for a subprocess that
    did not exit with status 0
  \<^item> \<open>OSError p\<close>: a failed system call on path \<open>p\<close>
  \<^item> \<open>ExternalError s\<close>: an error reported by a collaborator (template engine, TLS
    loader, engine API, engine verification)
  \<^item> \<open>PanicIndexOutOfRange\<close>: the run-time panic of indexing a slice out of range
  \<^item> \<open>ContextDone\<close>: the error of a context whose deadline passed or that was
    cancelled.
\<close>

datatype error =
    ErrDiskDirUnset
  | ErrWindows
  | ErrLocate string error
  | ErrCreateTimeout int
  | ErrCloneExists string string
  | ErrCloneFailed string string string error
  | ErrDefineFailed string error string
  | ErrVerifyTimeout string
  | ExitError proc_status
  | OSError string
  | ExternalError string
  | PanicIndexOutOfRange
  | ContextDone

record tls_config =
  Certificates :: "string list"
  RootCAs :: "string list"
  InsecureSkipVerify :: bool

text \<open>\<open>type VirshMachine struct\<close>; a nil \<open>*tls.Config\<close> is \<open>None\<close>.\<close>

record VirshMachine =
  MachineName :: string
  dockerHost :: string
  tlsConfig :: "tls_config option"
  sshKeyPath :: string
  sshUser :: string
  ip :: string
  internalip :: string
  BaseDisk :: string
  DiskPath :: string
  CPUCount :: int
  Memory :: int

text \<open>The package variables \<open>VirshDiskDir\<close> and \<open>VirshOS\<close>.\<close>

record globals =
  VirshDiskDir :: string
  VirshOS :: string

text \<open>
  A logrus call: its level, its format string (for the \<open>...f\<close> variants) and its
  arguments, unrendered.
\<close>

datatype log_level = DebugLevel | InfoLevel | WarnLevel | ErrorLevel

datatype log_arg =
    AStr string
  | AStrs "string list"
  | AInt int
  | AErr "error option"
  | AMachines "VirshMachine list"

datatype log_entry =
    Logf log_level string "log_arg list"
  | Log log_level "log_arg list"

text \<open>
  Calls on the engine API, each with the docker host of the client it is made on:
  \<open>SwarmInit host ListenAddr AdvertiseAddr\<close>, \<open>SwarmInspect host\<close>, \<open>Info host\<close>,
  \<open>SwarmJoin host ListenAddr RemoteAddrs JoinToken\<close>.
\<close>

datatype api_call =
    is_SwarmInit: SwarmInit string string string
  | is_SwarmInspect: SwarmInspect string
  | is_Info: Info string
  | is_SwarmJoin: SwarmJoin string string "string list" string

record world =
  files :: "string set"
  environ :: "string \<rightharpoonup> string"
  cmd_log :: "string list list"
  log_out :: "log_entry list"
  api_log :: "api_call list"
  now :: nat
  rand_draws :: nat

text \<open>What a subprocess did: combined stdout and stderr, how it ended, how many
  milliseconds it ran, and what it did to the files.\<close>

record proc_result =
  pr_output :: string
  pr_status :: proc_status
  pr_duration :: nat
  pr_files :: "string set \<Rightarrow> string set"

text \<open>How \<open>ioutil.WriteFile\<close> ended: written; failed to open (nothing created); or
  failed after the file was created or truncated (a short write, a failed close).\<close>

datatype write_outcome = Written | OpenFailed | WriteFailed

text \<open>
  The outside of the program.
  \<^item> Go's library: \<open>path.Dir\<close>, \<open>filepath.Join\<close> (two arguments),
    \<open>strings.TrimSpace\<close>, and the first submatch of the two regular expressions of the
    source (\<open>ipv4\\s+([^/]+)\<close> and \<open>\\s+(\\S+)\\s+running\<close>), \<open>None\<close> when there is no
    match.
  \<^item> \<open>run_cmd n args\<close>: the result of the subprocess \<open>args\<close> when it is the
    \<open>n\<close>-th one started.
  \<^item> \<open>write_file n p\<close>: how writing \<open>p\<close> ends after \<open>n\<close> subprocesses.
  \<^item> \<open>render_template\<close>: \<open>template.Parse\<close> and \<open>Execute\<close> of the domain XML on a
    machine.
  \<^item> \<open>rand_int k max\<close>: the \<open>k\<close>-th draw of \<open>rand.Int(rand.Reader, max)\<close>, \<open>None\<close>
    when the reader fails.
  \<^item> \<open>load_key_pair\<close>, \<open>read_file\<close>: \<open>tls.LoadX509KeyPair\<close> and
    \<open>ioutil.ReadFile\<close>.
  \<^item> \<open>VerifyDockerEngine\<close> and \<open>NamePrefix\<close> are declared in files of package
    \<open>machines\<close> that are not part of the sources at hand.
  \<^item> \<open>new_client\<close>, \<open>swarm_init\<close>, \<open>swarm_inspect\<close>, \<open>engine_info\<close>,
    \<open>swarm_join\<close>: the docker client; the number is the count of engine calls made
    before this one. \<open>swarm_inspect\<close> answers with the worker join token,
    \<open>engine_info\<close> with the addresses of the remote managers.
  \<^item> \<open>at_timer d w w1\<close>: the world at the time \<open>d\<close> at which the 60-minute timer of
    \<open>NewVirshMachines\<close> fires, when the creation goroutine, started in \<open>w\<close> and on its
    way to \<open>w1\<close>, has not reported yet. How far the goroutine has got by then is for
    the scheduler and the subprocesses under way to say, not for the program.
\<close>

record env =
  path_dir :: "string \<Rightarrow> string"
  filepath_join :: "string \<Rightarrow> string \<Rightarrow> string"
  TrimSpace :: "string \<Rightarrow> string"
  ip_regex :: "string \<Rightarrow> string option"
  name_regex :: "string \<Rightarrow> string option"
  run_cmd :: "nat \<Rightarrow> string list \<Rightarrow> proc_result"
  write_file :: "nat \<Rightarrow> string \<Rightarrow> write_outcome"
  render_template :: "VirshMachine \<Rightarrow> error + string"
  rand_int :: "nat \<Rightarrow> nat \<Rightarrow> nat option"
  load_key_pair :: "string \<Rightarrow> string \<Rightarrow> error + string"
  read_file :: "string \<Rightarrow> error + string"
  VerifyDockerEngine :: "VirshMachine \<Rightarrow> string \<Rightarrow> world \<Rightarrow> error option \<times> world"
  NamePrefix :: string
  new_client :: "string \<Rightarrow> error option"
  swarm_init :: "nat \<Rightarrow> string \<Rightarrow> error option"
  swarm_inspect :: "nat \<Rightarrow> string \<Rightarrow> error + string"
  engine_info :: "nat \<Rightarrow> string \<Rightarrow> error + string list"
  swarm_join :: "nat \<Rightarrow> string \<Rightarrow> error option"
  at_timer :: "nat \<Rightarrow> world \<Rightarrow> world \<Rightarrow> world"

section \<open>Effects\<close>

definition Getenv :: "world \<Rightarrow> string \<Rightarrow> string" where
  "Getenv w k = (case environ w k of None \<Rightarrow> [] | Some v \<Rightarrow> v)"

definition logf :: "log_level \<Rightarrow> string \<Rightarrow> log_arg list \<Rightarrow> world \<Rightarrow> world" where
  "logf lvl fmt args w = w\<lparr>log_out := log_out w @ [Logf lvl fmt args]\<rparr>"

definition logp :: "log_level \<Rightarrow> log_arg list \<Rightarrow> world \<Rightarrow> world" where
  "logp lvl args w = w\<lparr>log_out := log_out w @ [Log lvl args]\<rparr>"

definition Sleep :: "nat \<Rightarrow> world \<Rightarrow> world" where
  "Sleep ms w = w\<lparr>now := now w + ms\<rparr>"

text \<open>\<open>os.Stat\<close> succeeds on the paths that exist.\<close>

definition Stat :: "string \<Rightarrow> world \<Rightarrow> error option" where
  "Stat p w = (if p \<in> files w then None else Some (OSError p))"

text \<open>\<open>os.Remove\<close>; every caller in the source drops its error.\<close>

definition os_Remove :: "string \<Rightarrow> world \<Rightarrow> world" where
  "os_Remove p w = w\<lparr>files := files w - {p}\<rparr>"

text \<open>\<open>ioutil.WriteFile\<close>: the file exists afterwards unless it could not be opened.\<close>

definition WriteFile :: "env \<Rightarrow> string \<Rightarrow> world \<Rightarrow> error option \<times> world" where
  "WriteFile e p w =
     (case write_file e (length (cmd_log w)) p of
        Written \<Rightarrow> (None, w\<lparr>files := insert p (files w)\<rparr>)
      | OpenFailed \<Rightarrow> (Some (OSError p), w)
      | WriteFailed \<Rightarrow> (Some (OSError p), w\<lparr>files := insert p (files w)\<rparr>))"

text \<open>
  \<open>exec.Command(args...).CombinedOutput()\<close>: the subprocess is recorded, the clock
  advances by its running time, and the error is nil exactly for exit status 0.
\<close>

definition CombinedOutput :: "env \<Rightarrow> string list \<Rightarrow> world \<Rightarrow> string \<times> error option \<times> world" where
  "CombinedOutput e args w =
     (let r = run_cmd e (length (cmd_log w)) args
      in (pr_output r,
          (if pr_status r = Exited 0 then None else Some (ExitError (pr_status r))),
          w\<lparr>files := pr_files r (files w),
            cmd_log := cmd_log w @ [args],
            now := now w + pr_duration r\<rparr>))"

section \<open>Remote shell\<close>

definition ssh_args :: "VirshMachine \<Rightarrow> string \<Rightarrow> string list" where
  "ssh_args m command =
     [''ssh'', ''-q'',
      ''-o'', ''StrictHostKeyChecking=no'',
      ''-o'', ''GlobalKnownHostsFile=/dev/null'',
      ''-o'', ''UserKnownHostsFile=/dev/null'',
      ''-o'', ''UpdateHostKeys=no'',
      ''-o'', ''CheckHostIP=no'',
      ''-o'', ''ConnectTimeout=8'',
      ''-o'', ''VerifyHostKeyDNS=no'',
      ''-i'', sshKeyPath m,
      sshUser m @ ''@'' @ ip m,
      command]"

definition MachineSSH :: "env \<Rightarrow> VirshMachine \<Rightarrow> string \<Rightarrow> world \<Rightarrow> string \<times> error option \<times> world" where
  "MachineSSH e m command w =
     (let args = ssh_args m command;
          w1 = logf DebugLevel ''SSH to %s: %v'' [AStr (MachineName m), AStrs args] w;
          (out, err, w2) = CombinedOutput e args w1
      in (TrimSpace e out, err, w2))"

definition GetName :: "VirshMachine \<Rightarrow> string" where
  "GetName m = MachineName m"

section \<open>Virtualization driver\<close>

definition cloneDisk :: "env \<Rightarrow> VirshMachine \<Rightarrow> world \<Rightarrow> error option \<times> VirshMachine \<times> world" where
  "cloneDisk e m w =
     (let dir = path_dir e (BaseDisk m);
          linkedCloneName = filepath_join e dir (MachineName m @ ''.qcow2'')
      in if Stat linkedCloneName w = None
         then (Some (ErrCloneExists linkedCloneName (BaseDisk m)), m, w)
         else
           let w1 = logf DebugLevel ''Creating linked clone %s with base disk %s''
                      [AStr linkedCloneName, AStr (BaseDisk m)] w;
               (data, err, w2) = CombinedOutput e
                  [''qemu-img'', ''create'', ''-f'', ''qcow2'', ''-o'', ''backing_fmt=qcow2'',
                   ''-b'', BaseDisk m, linkedCloneName] w1;
               out = TrimSpace e data
           in (case err of
                 Some x \<Rightarrow> (Some (ErrCloneFailed linkedCloneName (BaseDisk m) out x), m, w2)
               | None \<Rightarrow>
                   (None, m\<lparr>DiskPath := linkedCloneName\<rparr>, logp DebugLevel [AStr out] w2)))"

text \<open>
  \<open>define\<close> (named \<open>define_vm\<close> here, \<open>define\<close> being a keyword). The deferred \<open>os.Remove(defFile)\<close> is registered after the descriptor
  has been written, so it runs on the two exits that follow the write and on none
  before it.
\<close>

definition define_vm :: "env \<Rightarrow> VirshMachine \<Rightarrow> world \<Rightarrow> error option \<times> world" where
  "define_vm e m w =
     (let w1 = logf DebugLevel ''Creating vm %s'' [AStr (MachineName m)] w
      in case render_template e m of
           Inl err \<Rightarrow> (Some err, w1)
         | Inr xml \<Rightarrow>
             let defFile = filepath_join e (path_dir e (DiskPath m)) (MachineName m @ ''.xml'')
             in (case WriteFile e defFile w1 of
                   (Some err, w2) \<Rightarrow> (Some err, w2)
                 | (None, w2) \<Rightarrow>
                     let (data, err, w3) = CombinedOutput e [''virsh'', ''define'', defFile] w2;
                         out = TrimSpace e data
                     in (case err of
                           Some x \<Rightarrow>
                             (Some (ErrDefineFailed (MachineName m) x out), os_Remove defFile w3)
                         | None \<Rightarrow> (None, os_Remove defFile w3))))"

text \<open>\<open>strings.Split(s, "\\n")\<close>: never empty.\<close>

fun split_lines :: "string \<Rightarrow> string list" where
  "split_lines [] = [[]]"
| "split_lines (c # cs) =
     (if c = CHR 0x0A then [] # split_lines cs
      else (case split_lines cs of l # ls \<Rightarrow> (c # l) # ls | [] \<Rightarrow> [[c]]))"

definition getActiveMachines :: "env \<Rightarrow> world \<Rightarrow> string list \<times> world" where
  "getActiveMachines e w =
     (let (out, err, w1) = CombinedOutput e [''virsh'', ''-q'', ''list''] w;
          w2 = (case err of
                  Some x \<Rightarrow>
                    logp InfoLevel [AStr ''Failed to get list - assuming no VMs: %s'', AErr (Some x)] w1
                | None \<Rightarrow> w1)
      in (List.map_filter (\<lambda>line. name_regex e (TrimSpace e line)) (split_lines out), w2))"

definition IsRunning :: "env \<Rightarrow> VirshMachine \<Rightarrow> world \<Rightarrow> bool \<times> world" where
  "IsRunning e m w =
     (let (names, w1) = getActiveMachines e w
      in (MachineName m \<in> set names, w1))"

definition Stop :: "env \<Rightarrow> VirshMachine \<Rightarrow> world \<Rightarrow> error option \<times> world" where
  "Stop e m w =
     (let (out, err, w1) = CombinedOutput e [''virsh'', ''shutdown'', MachineName m] w
      in case err of
           Some x \<Rightarrow> (Some x, logp ErrorLevel [AStr out] w1)
         | None \<Rightarrow> (None, w1))"

text \<open>
  A goroutine that polls while its caller waits on a timer is followed up to the
  timer's deadline: each round first looks at the clock, and the caller takes the
  goroutine's answer when it came before the deadline and the timer's otherwise.
  What an abandoned goroutine does after its caller has returned is not followed.
\<close>

text \<open>The goroutine of \<open>Kill\<close>: \<open>True\<close> when it saw the machine stopped.\<close>

function kill_wait :: "env \<Rightarrow> nat \<Rightarrow> VirshMachine \<Rightarrow> world \<Rightarrow> bool \<times> world" where
  "kill_wait e deadline m w =
     (if deadline \<le> now w then (False, w)
      else case IsRunning e m w of
             (False, w1) \<Rightarrow> (True, w1)
           | (True, w1) \<Rightarrow> kill_wait e deadline m (Sleep 500 w1))"
  by pat_completeness auto
termination
proof (relation "measure (\<lambda>(e, deadline, m, w). deadline - now w)")
  show "wf (measure (\<lambda>(e, deadline, m, w). deadline - now w))" by simp
next
  fix e :: env and deadline :: nat and m :: VirshMachine and w x2 :: world and x1 :: bool
  assume a: "\<not> deadline \<le> now w" and b: "(x1, x2) = IsRunning e m w"
  from b have "now w \<le> now x2"
    by (auto simp: IsRunning_def getActiveMachines_def CombinedOutput_def logp_def Let_def
             split: prod.splits option.splits if_splits)
  with a show "((e, deadline, m, Sleep 500 x2), (e, deadline, m, w))
                 \<in> measure (\<lambda>(e, deadline, m, w). deadline - now w)"
    by (simp add: Sleep_def)
qed

declare kill_wait.simps [simp del]

definition Kill :: "env \<Rightarrow> VirshMachine \<Rightarrow> world \<Rightarrow> error option \<times> world" where
  "Kill e m w =
     (let (out, err, w1) = CombinedOutput e [''virsh'', ''destroy'', MachineName m] w
      in case err of
           Some x \<Rightarrow> (Some x, logp ErrorLevel [AStr out] w1)
         | None \<Rightarrow>
             let deadline = now w1 + 60000
             in (case kill_wait e deadline m w1 of
                   (True, w2) \<Rightarrow>
                     if now w2 < deadline
                     then (None, logf DebugLevel ''Got %v on resChan'' [AErr None] w2)
                     else (Some (ErrVerifyTimeout (MachineName m)), w2)
                 | (False, w2) \<Rightarrow> (Some (ErrVerifyTimeout (MachineName m)), w2)))"

definition Remove :: "env \<Rightarrow> VirshMachine \<Rightarrow> world \<Rightarrow> error option \<times> VirshMachine \<times> world" where
  "Remove e m w =
     (if Getenv w ''PRESERVE_TEST_MACHINE'' \<noteq> []
      then (None, m,
            logf InfoLevel ''Skipping removal of machine %s with PRESERVE_TEST_MACHINE set''
              [AStr (GetName m)] w)
      else
        let (running, w1) = IsRunning e m w;
            w2 = (if running then snd (Kill e m w1) else w1);
            (out, err, w3) = CombinedOutput e
               [''virsh'', ''undefine'', ''--storage'', DiskPath m, MachineName m] w2
        in case err of
             Some x \<Rightarrow> (Some x, m, logp ErrorLevel [AStr out] w3)
           | None \<Rightarrow>
               (None, m\<lparr>MachineName := []\<rparr>,
                logf InfoLevel ''Machine %s deleted'' [AStr (MachineName m)]
                  (os_Remove (DiskPath m) w3)))"

definition RemoveAndPreserveDisk ::
  "env \<Rightarrow> VirshMachine \<Rightarrow> world \<Rightarrow> error option \<times> VirshMachine \<times> world" where
  "RemoveAndPreserveDisk e m w =
     (if Getenv w ''PRESERVE_TEST_MACHINE'' \<noteq> []
      then (None, m,
            logf InfoLevel ''Skipping removal of machine %s with PRESERVE_TEST_MACHINE set''
              [AStr (GetName m)] w)
      else
        let (running, w1) = IsRunning e m w;
            w2 = (if running then snd (Stop e m w1) else w1);
            (out, err, w3) = CombinedOutput e [''virsh'', ''undefine'', MachineName m] w2
        in case err of
             Some x \<Rightarrow> (Some x, m, logp ErrorLevel [AStr out] w3)
           | None \<Rightarrow>
               (None, m\<lparr>MachineName := []\<rparr>,
                logf InfoLevel ''Machine %s deleted'' [AStr (MachineName m)]
                  (logf InfoLevel ''Preserving %s'' [AStr (DiskPath m)] w3)))"

text \<open>
  The goroutine of \<open>Start\<close>, first loop: ask \<open>virsh -q domifaddr\<close> for the address once
  a second until the first line of its output matches.
\<close>

function start_wait_ip ::
  "env \<Rightarrow> nat \<Rightarrow> VirshMachine \<Rightarrow> world \<Rightarrow> bool \<times> VirshMachine \<times> world" where
  "start_wait_ip e deadline m w =
     (if deadline \<le> now w then (False, m, w)
      else
        let (data, err, w1) = CombinedOutput e [''virsh'', ''-q'', ''domifaddr'', GetName m] w;
            out = TrimSpace e data
        in case (if err = None
                 then (case split_lines out of [] \<Rightarrow> None | l # ls \<Rightarrow> ip_regex e l)
                 else None) of
             Some a \<Rightarrow>
               (True, m\<lparr>ip := a, internalip := a, dockerHost := ''tcp://'' @ a @ '':2376''\<rparr>, w1)
           | None \<Rightarrow> start_wait_ip e deadline m (Sleep 1000 w1))"
  by pat_completeness auto
termination
proof (relation "measure (\<lambda>(e, deadline, m, w). deadline - now w)")
  show "wf (measure (\<lambda>(e, deadline, m, w). deadline - now w))" by simp
next
  fix e :: env and deadline :: nat and m :: VirshMachine and w w1 :: world
    and x :: "string \<times> error option \<times> world" and data :: string
    and y :: "error option \<times> world" and err :: "error option"
  assume a: "\<not> deadline \<le> now w"
    and b: "x = CombinedOutput e [''virsh'', ''-q'', ''domifaddr'', GetName m] w"
    and c: "(data, y) = x" and d: "(err, w1) = y"
  from b c d have "now w \<le> now w1"
    by (auto simp: CombinedOutput_def Let_def)
  with a show "((e, deadline, m, Sleep 1000 w1), (e, deadline, m, w))
                 \<in> measure (\<lambda>(e, deadline, m, w). deadline - now w)"
    by (simp add: Sleep_def)
qed

declare start_wait_ip.simps [simp del]

text \<open>Second loop: \<open>ssh ... uptime\<close> every half second until it succeeds.\<close>

function start_wait_ssh :: "env \<Rightarrow> nat \<Rightarrow> VirshMachine \<Rightarrow> world \<Rightarrow> bool \<times> world" where
  "start_wait_ssh e deadline m w =
     (if deadline \<le> now w then (False, w)
      else case MachineSSH e m ''uptime'' w of
             (out, Some x, w1) \<Rightarrow> start_wait_ssh e deadline m (Sleep 500 w1)
           | (out, None, w1) \<Rightarrow>
               (True, logf DebugLevel ''%s has been up %s'' [AStr (GetName m), AStr out] w1))"
  by pat_completeness auto
termination
proof (relation "measure (\<lambda>(e, deadline, m, w). deadline - now w)")
  show "wf (measure (\<lambda>(e, deadline, m, w). deadline - now w))" by simp
next
  fix e :: env and deadline :: nat and m :: VirshMachine and w w1 :: world
    and out :: string and y :: "error option \<times> world" and err :: "error option" and x :: error
  assume a: "\<not> deadline \<le> now w"
    and b: "(out, y) = MachineSSH e m ''uptime'' w"
    and c: "(err, w1) = y" and d: "err = Some x"
  from b c have "now w \<le> now w1"
    by (auto simp: MachineSSH_def CombinedOutput_def logf_def Let_def split: prod.splits)
  with a show "((e, deadline, m, Sleep 500 w1), (e, deadline, m, w))
                 \<in> measure (\<lambda>(e, deadline, m, w). deadline - now w)"
    by (simp add: Sleep_def)
qed

declare start_wait_ssh.simps [simp del]

definition Start :: "env \<Rightarrow> VirshMachine \<Rightarrow> world \<Rightarrow> error option \<times> VirshMachine \<times> world" where
  "Start e m w =
     (let (out, err, w1) = CombinedOutput e [''virsh'', ''start'', MachineName m] w
      in case err of
           Some x \<Rightarrow> (Some x, m, logp ErrorLevel [AStr out] w1)
         | None \<Rightarrow>
             let deadline = now w1 + 60000;
                 w2 = logf DebugLevel ''Waiting for IP to appear for %s'' [AStr (GetName m)] w1
             in (case start_wait_ip e deadline m w2 of
                   (False, m1, w3) \<Rightarrow> (Some (ErrVerifyTimeout (GetName m1)), m1, w3)
                 | (True, m1, w3) \<Rightarrow>
                     let w4 = logf DebugLevel ''Machine %s has IP %s''
                                [AStr (GetName m1), AStr (ip m1)] w3
                     in (case start_wait_ssh e deadline m1 w4 of
                           (False, w5) \<Rightarrow> (Some (ErrVerifyTimeout (GetName m1)), m1, w5)
                         | (True, w5) \<Rightarrow>
                             if now w5 < deadline then (None, m1, w5)
                             else (Some (ErrVerifyTimeout (GetName m1)), m1, w5))))"

definition GetIP :: "VirshMachine \<Rightarrow> string \<times> error option" where
  "GetIP m = (ip m, None)"


section \<open>Machine names\<close>

text \<open>
  \<open>fmt.Sprintf("%s-%X-%d", NamePrefix, id, index)\<close>. \<open>%d\<close> of a non-negative \<open>int\<close> is
  its decimal digits, \<open>%X\<close> of a non-negative \<open>*big.Int\<close> its upper-case hexadecimal
  digits, both without leading zeros; a nil \<open>*big.Int\<close> (the error of \<open>rand.Int\<close> is
  dropped) prints as \<open><nil>\<close>.
\<close>

definition digit_char :: "nat \<Rightarrow> char" where
  "digit_char d = ''0123456789ABCDEF'' ! d"

function render_nat :: "nat \<Rightarrow> nat \<Rightarrow> string" where
  "render_nat b n =
     (if n < b \<or> b < 2 then [digit_char n]
      else render_nat b (n div b) @ [digit_char (n mod b)])"
  by pat_completeness auto
termination
  by (relation "measure snd") auto

declare render_nat.simps [simp del]

definition render_id :: "nat option \<Rightarrow> string" where
  "render_id i = (case i of None \<Rightarrow> ''<nil>'' | Some n \<Rightarrow> render_nat 16 n)"

definition machine_name :: "string \<Rightarrow> nat option \<Rightarrow> nat \<Rightarrow> string" where
  "machine_name prefix i index = prefix @ ''-'' @ render_id i @ ''-'' @ render_nat 10 index"

section \<open>Machine set creation\<close>

text \<open>One round of the creation loop of \<open>NewVirshMachines\<close>.\<close>

definition create_machine ::
  "env \<Rightarrow> globals \<Rightarrow> string \<Rightarrow> nat option \<Rightarrow> nat \<Rightarrow> world \<Rightarrow> (error + VirshMachine) \<times> world" where
  "create_machine e g baseOS i index w =
     (let m = \<lparr>MachineName = machine_name (NamePrefix e) i index,
               dockerHost = [],
               tlsConfig = None,
               sshKeyPath = filepath_join e (VirshDiskDir g) ''id_rsa'',
               sshUser = ''docker'',
               ip = [],
               internalip = [],
               BaseDisk = baseOS,
               DiskPath = [],
               CPUCount = 1,
               Memory = 2048\<rparr>
      in case cloneDisk e m w of
           (Some err, m1, w1) \<Rightarrow> (Inl err, w1)
         | (None, m1, w1) \<Rightarrow>
             (case define_vm e m1 w1 of
                (Some err, w2) \<Rightarrow> (Inl err, w2)
              | (None, w2) \<Rightarrow>
                  (case Start e m1 w2 of
                     (Some err, m2, w3) \<Rightarrow> (Inl err, w3)
                   | (None, m2, w3) \<Rightarrow>
                       (case load_key_pair e (filepath_join e (VirshDiskDir g) ''cert.pem'')
                               (filepath_join e (VirshDiskDir g) ''key.pem'') of
                          Inl err \<Rightarrow> (Inl err, w3)
                        | Inr cert \<Rightarrow>
                            (case read_file e (filepath_join e (VirshDiskDir g) ''ca.pem'') of
                               Inl err \<Rightarrow> (Inl err, w3)
                             | Inr caCert \<Rightarrow>
                                 (Inr (m2\<lparr>tlsConfig :=
                                         Some \<lparr>Certificates = [cert], RootCAs = [caCert],
                                               InsecureSkipVerify = True\<rparr>\<rparr>), w3))))))"

text \<open>The creation loop over the indices still to do; the first failure ends the
  goroutine with that error.\<close>

fun create_loop ::
  "env \<Rightarrow> globals \<Rightarrow> string \<Rightarrow> nat option \<Rightarrow> nat list \<Rightarrow> VirshMachine list \<Rightarrow> world
     \<Rightarrow> (error + VirshMachine list) \<times> world" where
  "create_loop e g baseOS i [] machines w = (Inr machines, w)"
| "create_loop e g baseOS i (index # rest) machines w =
     (case create_machine e g baseOS i index w of
        (Inl err, w1) \<Rightarrow> (Inl err, w1)
      | (Inr m, w1) \<Rightarrow> create_loop e g baseOS i rest (machines @ [m]) w1)"

definition create_phase ::
  "env \<Rightarrow> globals \<Rightarrow> int \<Rightarrow> string \<Rightarrow> world \<Rightarrow> (error + VirshMachine list) \<times> world" where
  "create_phase e g linuxCount baseOS w =
     (let w1 = logf DebugLevel ''Attempting %s machine creation for %d nodes''
                 [AStr (VirshOS g), AInt linuxCount] w;
          i = rand_int e (rand_draws w1) 0xffffff;
          w2 = w1\<lparr>rand_draws := rand_draws w1 + 1\<rparr>
      in create_loop e g baseOS i [0..<nat linuxCount] [] w2)"

text \<open>The goroutine started for one machine: set the host name (a failure is only a
  warning), then verify the engine.\<close>

definition hostname_command :: "string \<Rightarrow> string" where
  "hostname_command n =
     ''sudo hostname '' @ [CHR 0x22] @ n @ [CHR 0x22] @ ''; sudo sed -e '' @ [CHR 0x27]
       @ ''s/.*/'' @ n @ ''/'' @ [CHR 0x27] @ '' -i /etc/hostname''"

definition machine_task :: "env \<Rightarrow> globals \<Rightarrow> VirshMachine \<Rightarrow> world \<Rightarrow> error option \<times> world" where
  "machine_task e g m w =
     (let (out, err, w1) = MachineSSH e m (hostname_command (GetName m)) w;
          w2 = (case err of
                  Some x \<Rightarrow> logf WarnLevel ''Failed to set hostname to %s: %s: %s''
                              [AStr (GetName m), AErr (Some x), AStr out] w1
                | None \<Rightarrow> w1)
      in VerifyDockerEngine e m (VirshDiskDir g) w2)"

text \<open>
  The tasks run side by side from the moment \<open>t0\<close>. Each is run on the world the
  previous one left, with the clock set back to \<open>t0\<close>, and gives the time it finished
  at with its result.
\<close>

fun run_tasks ::
  "env \<Rightarrow> globals \<Rightarrow> nat \<Rightarrow> VirshMachine list \<Rightarrow> world \<Rightarrow> (nat \<times> error option) list \<times> world" where
  "run_tasks e g t0 [] w = ([], w)"
| "run_tasks e g t0 (m # ms) w =
     (let (r, w1) = machine_task e g m (w\<lparr>now := t0\<rparr>);
          (rs, w2) = run_tasks e g t0 ms w1
      in ((now w1, r) # rs, w2))"

text \<open>
  \<open>wg.Wait()\<close> returns when the last task has finished; \<open>machineErrChan\<close> then holds
  the results in the order the tasks finished in (tasks finishing together, in the
  order they were started in). A task calls \<open>wg.Done()\<close> before it sends its result;
  every send is taken to have been made when the channel is closed.
\<close>

definition verify_phase ::
  "env \<Rightarrow> globals \<Rightarrow> VirshMachine list \<Rightarrow> world \<Rightarrow> error option list \<times> world" where
  "verify_phase e g machines w =
     (let (rs, w1) = run_tasks e g (now w) machines w
      in (map snd (sort_key fst rs), w1\<lparr>now := fold max (map fst rs) (now w)\<rparr>))"

text \<open>\<open>for err := range machineErrChan\<close>: the first result that is not nil.\<close>

fun first_error :: "error option list \<Rightarrow> error option" where
  "first_error [] = None"
| "first_error (None # rs) = first_error rs"
| "first_error (Some err # rs) = Some err"

text \<open>\<open>for _, m := range machines { m.Remove() }\<close>: the results are dropped.\<close>

fun remove_all :: "env \<Rightarrow> VirshMachine list \<Rightarrow> world \<Rightarrow> VirshMachine list \<times> world" where
  "remove_all e [] w = ([], w)"
| "remove_all e (m # ms) w =
     (case Remove e m w of
        (r, m1, w1) \<Rightarrow> (case remove_all e ms w1 of (ms1, w2) \<Rightarrow> (m1 # ms1, w2)))"

text \<open>The creation goroutine: \<open>Inl\<close> is what it sends on \<open>errChan\<close>, \<open>Inr\<close> on
  \<open>resChan\<close>.\<close>

definition create_goroutine ::
  "env \<Rightarrow> globals \<Rightarrow> int \<Rightarrow> string \<Rightarrow> world \<Rightarrow> (error + VirshMachine list) \<times> world" where
  "create_goroutine e g linuxCount baseOS w =
     (case create_phase e g linuxCount baseOS w of
        (Inl err, w1) \<Rightarrow> (Inl err, w1)
      | (Inr machines, w1) \<Rightarrow>
          (case verify_phase e g machines w1 of
             (chan, w2) \<Rightarrow>
               (case first_error chan of
                  Some err \<Rightarrow>
                    let w3 = logf DebugLevel
                               ''XXX sleeping for 10s to allow you to suspend and poke around'' [] w2;
                        w4 = Sleep 10000 w3
                    in (Inl err, snd (remove_all e machines w4))
                | None \<Rightarrow> (Inr machines, w2))))"

text \<open>
  \<open>NewVirshMachines\<close>. The \<open>select\<close> takes the answer of the creation goroutine when
  that comes before the deadline of the 60-minute timer. Otherwise it takes the timer:
  the call returns the timeout error at the deadline, while the goroutine, which is
  not cancelled, is still at work; nothing that the goroutine does after the deadline
  is part of the call, and the world returned is the one the environment gives for
  that moment.
\<close>

definition NewVirshMachines ::
  "env \<Rightarrow> globals \<Rightarrow> int \<Rightarrow> int \<Rightarrow> world
     \<Rightarrow> VirshMachine list \<times> VirshMachine list \<times> error option \<times> world" where
  "NewVirshMachines e g linuxCount windowsCount w =
     (if VirshDiskDir g = [] then ([], [], Some ErrDiskDirUnset, w)
      else if windowsCount \<noteq> 0 then ([], [], Some ErrWindows, w)
      else
        let baseOS = filepath_join e (VirshDiskDir g) (VirshOS g @ ''.qcow2'')
        in case Stat baseOS w of
             Some err \<Rightarrow> ([], [], Some (ErrLocate baseOS err), w)
           | None \<Rightarrow>
               let deadline = now w + 60 * 60000
               in (case create_goroutine e g linuxCount baseOS w of
                     (r, w1) \<Rightarrow>
                       if deadline \<le> now w1
                       then ([], [], Some (ErrCreateTimeout linuxCount),
                             at_timer e deadline w w1)
                       else (case r of
                               Inr res \<Rightarrow>
                                 (res, [], None,
                                  logf DebugLevel ''XXX Got %v on resChan'' [AMachines res] w1)
                             | Inl err \<Rightarrow>
                                 ([], [], Some err,
                                  logf DebugLevel ''XXX Got %v on errChan'' [AErr (Some err)] w1))))"

text \<open>The package variables as declared, and \<open>func init()\<close> of package \<open>machines\<close>.\<close>

definition declared_globals :: globals where
  "declared_globals = \<lparr>VirshDiskDir = ''/e2e'', VirshOS = ''ubuntu16.04''\<rparr>"

definition init :: "globals \<Rightarrow> world \<Rightarrow> globals" where
  "init g w =
     (let g1 = g\<lparr>VirshDiskDir := Getenv w ''VIRSH_DISK_DIR''\<rparr>;
          baseOS = Getenv w ''VIRSH_OS''
      in if baseOS \<noteq> [] then g1\<lparr>VirshOS := baseOS\<rparr> else g1)"

section \<open>Cluster bootstrap\<close>








section \<open>Convergence poller\<close>

text \<open>
  Modelled from the spec: \<open>awaitConverge\<close> (\<open>WaitForConverge\<close> in the tests, which call it;
  its body is not among the sources at hand). The spec: it "re-invokes a zero-argument
  predicate (nil = success, else descriptive error) at fixed interval until success or
  until the deadline/cancellation fires, at which point it returns the cancellation
  error or the last predicate error".

  Time is counted from the call. \<open>predicate j\<close> is what the \<open>j\<close>-th invocation returns
  (\<open>j\<close> from 1); an invocation takes no time. \<open>calls\<close> invocations have been made,
  the next one is due at \<open>t\<close>, and \<open>lastErr\<close> is the error of the latest one. The result
  is the error returned with the time of the return. When the deadline fires the last
  predicate error is returned, and the cancellation error when the predicate was
  never run. With an interval of 0 and a predicate that never succeeds the loop does
  not end: the value is then \<open>None\<close>.
\<close>

partial_function (option) awaitConverge_loop ::
  "nat \<Rightarrow> nat \<Rightarrow> (nat \<Rightarrow> error option) \<Rightarrow> nat \<Rightarrow> nat \<Rightarrow> error option \<Rightarrow> (error option \<times> nat) option"
  where
  "awaitConverge_loop deadline interval predicate calls t lastErr =
     (if deadline \<le> t
      then Some (Some (case lastErr of None \<Rightarrow> ContextDone | Some err \<Rightarrow> err), deadline)
      else case predicate (Suc calls) of
             None \<Rightarrow> Some (None, t)
           | Some err \<Rightarrow>
               awaitConverge_loop deadline interval predicate (Suc calls) (t + interval) (Some err))"

definition awaitConverge ::
  "nat \<Rightarrow> nat \<Rightarrow> (nat \<Rightarrow> error option) \<Rightarrow> (error option \<times> nat) option" where
  "awaitConverge deadline interval predicate =
     awaitConverge_loop deadline interval predicate 0 0 None"

section \<open>A host to evaluate on\<close>

text \<open>
  A host on which every subprocess exits with status 0 after 100 ms and
  \<open>virsh -q domifaddr\<close> reports an address, with simple stand-ins for the library
  functions (right on the clean absolute paths and the outputs used here). Its
  \<open>at_timer\<close> only sets the clock; no evaluation below looks at the world of a call
  that timed out.
\<close>

definition ascii_space :: "char \<Rightarrow> bool" where
  "ascii_space c = (c = CHR '' '' \<or> c = CHR 0x09 \<or> c = CHR 0x0A \<or> c = CHR 0x0D)"

definition host_env :: env where
  "host_env =
     \<lparr>path_dir = (\<lambda>p. rev (drop 1 (dropWhile (\<lambda>c. c \<noteq> CHR ''/'') (rev p)))),
      filepath_join = (\<lambda>d f. d @ ''/'' @ f),
      TrimSpace = (\<lambda>s. rev (dropWhile ascii_space (rev (dropWhile ascii_space s)))),
      ip_regex = (\<lambda>l. if take 5 l = ''ipv4 ''
                        then Some (takeWhile (\<lambda>c. c \<noteq> CHR ''/'') (drop 5 l)) else None),
      name_regex = (\<lambda>l. None),
      run_cmd = (\<lambda>n args.
         \<lparr>pr_output = (if take 3 args = [''virsh'', ''-q'', ''domifaddr'']
                        then ''ipv4 10.0.0.5/24'' else ''ok ''),
          pr_status = Exited 0, pr_duration = 100, pr_files = (\<lambda>fs. fs)\<rparr>),
      write_file = (\<lambda>n p. Written),
      render_template = (\<lambda>m. Inr (MachineName m)),
      rand_int = (\<lambda>k mx. Some 0xBEEF),
      load_key_pair = (\<lambda>c k. Inr c),
      read_file = (\<lambda>p. Inr p),
      VerifyDockerEngine = (\<lambda>m d w. (None, w\<lparr>now := now w + 1000\<rparr>)),
      NamePrefix = ''e2e'',
      new_client = (\<lambda>h. None),
      swarm_init = (\<lambda>n h. None),
      swarm_inspect = (\<lambda>n h. Inr ''SWMTKN-1''),
      engine_info = (\<lambda>n h. Inr [''10.0.0.5:2377'']),
      swarm_join = (\<lambda>n h. None),
      at_timer = (\<lambda>d w w1. w\<lparr>now := d\<rparr>)\<rparr>"

text \<open>The same host when \<open>ssh\<close> cannot reach the machine.\<close>

definition unreachable_env :: env where
  "unreachable_env =
     host_env\<lparr>run_cmd := (\<lambda>n args.
        \<lparr>pr_output = '' no route to host '', pr_status = Exited 255, pr_duration = 8000,
         pr_files = (\<lambda>fs. fs)\<rparr>)\<rparr>"

text \<open>The same host when the machine refuses the connection: another output, the
  same exit status.\<close>

definition refused_env :: env where
  "refused_env =
     host_env\<lparr>run_cmd := (\<lambda>n args.
        \<lparr>pr_output = '' connection refused '', pr_status = Exited 255, pr_duration = 10,
         pr_files = (\<lambda>fs. fs)\<rparr>)\<rparr>"

definition host_world :: world where
  "host_world =
     \<lparr>files = {''/e2e/ubuntu16.04.qcow2''}, environ = Map.empty, cmd_log = [], log_out = [],
      api_log = [], now = 0, rand_draws = 0\<rparr>"

definition host_machine :: "string \<Rightarrow> VirshMachine" where
  "host_machine n =
     \<lparr>MachineName = n, dockerHost = ''tcp://'' @ n @ '':2376'', tlsConfig = None,
      sshKeyPath = ''/e2e/id_rsa'', sshUser = ''docker'', ip = n, internalip = n,
      BaseDisk = ''/e2e/ubuntu16.04.qcow2'', DiskPath = ''/e2e/'' @ n @ ''.qcow2'',
      CPUCount = 1, Memory = 2048\<rparr>"

text \<open>The package variables on that host: \<open>VIRSH_DISK_DIR\<close> is \<open>/e2e\<close>.\<close>

definition host_globals :: globals where
  "host_globals = \<lparr>VirshDiskDir = ''/e2e'', VirshOS = ''ubuntu16.04''\<rparr>"

text \<open>The same host with a full disk: the descriptor file is created and the write to
  it fails.\<close>

definition full_disk_env :: env where
  "full_disk_env = host_env\<lparr>write_file := (\<lambda>n p. WriteFailed)\<rparr>"

text \<open>The same host when every subprocess takes 40 seconds.\<close>

definition slow_env :: env where
  "slow_env =
     host_env\<lparr>run_cmd := (\<lambda>n args.
        \<lparr>pr_output = (if take 3 args = [''virsh'', ''-q'', ''domifaddr'']
                       then ''ipv4 10.0.0.5/24'' else ''ok ''),
         pr_status = Exited 0, pr_duration = 40000, pr_files = (\<lambda>fs. fs)\<rparr>)\<rparr>"




section \<open>Remote shell: the output returned\<close>

text \<open>
  C9, as stated, fails. Two runs in which \<open>ssh\<close> exits with status 255, one after
  writing "no route to host" and one after writing "connection refused", return their
  different outputs and one and the same error: the error of a run does not carry the
  output of that run.
\<close>

theorem MachineSSH_error_without_output_counterexample:
  "fst (MachineSSH unreachable_env (host_machine ''10.0.0.5'') ''uptime'' host_world)
     = ''no route to host'' \<and>
   fst (MachineSSH refused_env (host_machine ''10.0.0.5'') ''uptime'' host_world)
     = ''connection refused'' \<and>
   fst (snd (MachineSSH unreachable_env (host_machine ''10.0.0.5'') ''uptime'' host_world))
     = Some (ExitError (Exited 255)) \<and>
   fst (snd (MachineSSH refused_env (host_machine ''10.0.0.5'') ''uptime'' host_world))
     = fst (snd (MachineSSH unreachable_env (host_machine ''10.0.0.5'') ''uptime'' host_world))"
  by (simp add: MachineSSH_def CombinedOutput_def logf_def Let_def unreachable_env_def
        refused_env_def host_env_def host_world_def ascii_space_def)

text \<open>
  C9, amended. \<open>MachineSSH\<close> runs one \<open>ssh\<close> subprocess and returns the \<open>TrimSpace\<close> of
  what it wrote to stdout and stderr, whatever its exit status. The error returned
  beside that output is nil for exit status 0 and otherwise the exit error, which is
  made of the way the subprocess ended and of nothing else; so when \<open>ssh\<close> (which exits
  with the status of the remote command) exits with a status \<open>n\<close> other than 0, the
  error is the exit error of status \<open>n\<close>, and the output is in the first result only.
\<close>

theorem MachineSSH_output:
  "case MachineSSH e m command w of
     (out, err, w') \<Rightarrow>
       out = TrimSpace e (pr_output (run_cmd e (length (cmd_log w)) (ssh_args m command))) \<and>
       cmd_log w' = cmd_log w @ [ssh_args m command] \<and>
       err = (if pr_status (run_cmd e (length (cmd_log w)) (ssh_args m command)) = Exited 0
              then None
              else Some (ExitError (pr_status (run_cmd e (length (cmd_log w)) (ssh_args m command))))) \<and>
       (\<forall>n. pr_status (run_cmd e (length (cmd_log w)) (ssh_args m command)) = Exited n \<and> n \<noteq> 0
            \<longrightarrow> err = Some (ExitError (Exited n)))"
  by (simp add: MachineSSH_def CombinedOutput_def logf_def Let_def)

theorem MachineSSH_output_witness:
  "fst (MachineSSH unreachable_env (host_machine ''10.0.0.5'') ''uptime'' host_world)
     = ''no route to host'' \<and>
   fst (snd (MachineSSH unreachable_env (host_machine ''10.0.0.5'') ''uptime'' host_world))
     = Some (ExitError (Exited 255))"
  using MachineSSH_output [where e = unreachable_env and m = "host_machine ''10.0.0.5''"
      and command = "''uptime''" and w = host_world]
  by (simp add: unreachable_env_def host_env_def host_world_def ascii_space_def
        split: prod.splits)

section \<open>Disk clone: a clone that is already there\<close>

text \<open>
  C5. When the file that \<open>cloneDisk\<close> would create (the machine's name with
  \<open>.qcow2\<close>, in the directory of the base disk) exists already, \<open>cloneDisk\<close> returns the
  "already exists" error and leaves the machine, and with it \<open>DiskPath\<close>, and the world,
  and with it the list of subprocesses started, as they were: \<open>qemu-img\<close> is not run.
\<close>

theorem cloneDisk_existing_clone:
  "filepath_join e (path_dir e (BaseDisk m)) (MachineName m @ ''.qcow2'') \<in> files w \<Longrightarrow>
   cloneDisk e m w =
     (Some (ErrCloneExists (filepath_join e (path_dir e (BaseDisk m)) (MachineName m @ ''.qcow2''))
              (BaseDisk m)), m, w)"
  by (simp add: cloneDisk_def Stat_def)

theorem cloneDisk_existing_clone_witness:
  "cloneDisk host_env (host_machine ''vm'') (host_world\<lparr>files := {''/e2e/vm.qcow2''}\<rparr>) =
     (Some (ErrCloneExists ''/e2e/vm.qcow2'' ''/e2e/ubuntu16.04.qcow2''),
      host_machine ''vm'', host_world\<lparr>files := {''/e2e/vm.qcow2''}\<rparr>)"
  using cloneDisk_existing_clone
    [of host_env "host_machine ''vm''" "host_world\<lparr>files := {''/e2e/vm.qcow2''}\<rparr>"]
  by (simp add: host_env_def host_machine_def host_world_def)

section \<open>Package initialization\<close>

text \<open>
  C10. When \<open>VIRSH_DISK_DIR\<close> is not set, \<open>init\<close> replaces the declared
  \<open>VirshDiskDir\<close>, \<open>/e2e\<close>, by the empty string, and with the package variables so
  initialized \<open>NewVirshMachines\<close> returns no machines and the "you must set
  VIRSH_DISK_DIR" error, for every count, every host and every world.
\<close>

theorem init_unset_disk_dir:
  "environ w ''VIRSH_DISK_DIR'' = None \<Longrightarrow>
     VirshDiskDir declared_globals = ''/e2e'' \<and>
     VirshDiskDir (init declared_globals w) = [] \<and>
     (\<forall>e linuxCount windowsCount w'.
        NewVirshMachines e (init declared_globals w) linuxCount windowsCount w'
          = ([], [], Some ErrDiskDirUnset, w'))"
proof -
  assume unset: "environ w ''VIRSH_DISK_DIR'' = None"
  have dir: "VirshDiskDir (init declared_globals w) = []"
    using unset by (simp add: init_def Getenv_def Let_def)
  have "NewVirshMachines e (init declared_globals w) linuxCount windowsCount w'
          = ([], [], Some ErrDiskDirUnset, w')" for e linuxCount windowsCount w'
    by (simp add: NewVirshMachines_def dir)
  with dir show ?thesis by (simp add: declared_globals_def)
qed

theorem init_unset_disk_dir_witness:
  "VirshDiskDir (init declared_globals host_world) = [] \<and>
   NewVirshMachines host_env (init declared_globals host_world) 3 0 host_world
     = ([], [], Some ErrDiskDirUnset, host_world)"
proof -
  have unset: "environ host_world ''VIRSH_DISK_DIR'' = None"
    by (simp add: host_world_def)
  from init_unset_disk_dir [OF unset] show ?thesis by blast
qed

section \<open>Convergence poller: when it returns\<close>

lemma awaitConverge_loop_success:
  "k = Suc calls + n \<Longrightarrow> \<forall>j. calls < j \<and> j < k \<longrightarrow> p j \<noteq> None \<Longrightarrow> p k = None \<Longrightarrow>
   t + n * i < d \<Longrightarrow>
   awaitConverge_loop d i p calls t lastErr = Some (None, t + n * i)"
proof (induction n arbitrary: calls t lastErr)
  case 0
  then show ?case by (subst awaitConverge_loop.simps) simp
next
  case (Suc n)
  from Suc.prems have fails: "p (Suc calls) \<noteq> None" by simp
  then obtain err where err: "p (Suc calls) = Some err" by blast
  from Suc.prems have early: "\<not> d \<le> t" by simp
  have "awaitConverge_loop d i p (Suc calls) (t + i) (Some err) = Some (None, (t + i) + n * i)"
    using Suc.prems by (intro Suc.IH) auto
  with err early show ?case
    by (subst awaitConverge_loop.simps) (simp add: add.assoc)
qed

lemma awaitConverge_loop_deadline:
  "k = Suc calls + n \<Longrightarrow> \<forall>j. calls < j \<and> j < k \<longrightarrow> p j \<noteq> None \<Longrightarrow>
   d \<le> (calls + n) * i \<Longrightarrow>
   (calls = 0 \<and> lastErr = None) \<or> (0 < calls \<and> (calls - 1) * i < d \<and> lastErr = p calls \<and> p calls \<noteq> None) \<Longrightarrow>
   \<exists>err. awaitConverge_loop d i p calls (calls * i) lastErr = Some (Some err, d) \<and>
         ((d = 0 \<and> err = ContextDone) \<or>
          (\<exists>j. 1 \<le> j \<and> j < k \<and> (j - 1) * i < d \<and> d \<le> j * i \<and> p j = Some err))"
proof (induction n arbitrary: calls lastErr)
  case 0
  from "0.prems" have late: "d \<le> calls * i" by simp
  show ?case
  proof (cases "calls = 0")
    case True
    with "0.prems" late show ?thesis
      by (subst awaitConverge_loop.simps) auto
  next
    case False
    with "0.prems" obtain err where err: "lastErr = Some err" "p calls = Some err"
      and before: "(calls - 1) * i < d" by auto
    have "awaitConverge_loop d i p calls (calls * i) lastErr = Some (Some err, d)"
      using late err by (subst awaitConverge_loop.simps) simp
    moreover have "1 \<le> calls \<and> calls < k \<and> (calls - 1) * i < d \<and> d \<le> calls * i \<and> p calls = Some err"
      using False "0.prems"(1) before late err by simp
    ultimately show ?thesis by blast
  qed
next
  case (Suc n)
  show ?case
  proof (cases "d \<le> calls * i")
    case late: True
    show ?thesis
    proof (cases "calls = 0")
      case True
      with Suc.prems late show ?thesis
        by (subst awaitConverge_loop.simps) auto
    next
      case False
      with Suc.prems obtain err where err: "lastErr = Some err" "p calls = Some err"
        and before: "(calls - 1) * i < d" by auto
      have "awaitConverge_loop d i p calls (calls * i) lastErr = Some (Some err, d)"
        using late err by (subst awaitConverge_loop.simps) simp
      moreover have "1 \<le> calls \<and> calls < k \<and> (calls - 1) * i < d \<and> d \<le> calls * i \<and> p calls = Some err"
        using False Suc.prems(1) before late err by simp
      ultimately show ?thesis by blast
    qed
  next
    case early: False
    from Suc.prems have "p (Suc calls) \<noteq> None" by simp
    then obtain err where err: "p (Suc calls) = Some err" by blast
    have "\<exists>err'. awaitConverge_loop d i p (Suc calls) (Suc calls * i) (Some err) = Some (Some err', d) \<and>
         ((d = 0 \<and> err' = ContextDone) \<or>
          (\<exists>j. 1 \<le> j \<and> j < k \<and> (j - 1) * i < d \<and> d \<le> j * i \<and> p j = Some err'))"
      using Suc.prems early err by (intro Suc.IH) auto
    moreover have "awaitConverge_loop d i p calls (calls * i) lastErr
        = awaitConverge_loop d i p (Suc calls) (Suc calls * i) (Some err)"
      using early err by (subst awaitConverge_loop.simps) (simp add: add.commute)
    ultimately show ?thesis by simp
  qed
qed

text \<open>
  C4. For an interval \<open>i > 0\<close>, a deadline \<open>d\<close> and a predicate whose \<open>k\<close>-th invocation
  is the first to succeed: when \<open>(k - 1) * i < d\<close>, \<open>awaitConverge\<close> returns success, at
  the time \<open>(k - 1) * i\<close>, which is before the deadline and not before \<open>(k - 1) * i\<close>;
  otherwise it returns an error, at the deadline: the cancellation error when the
  deadline is 0 (the predicate was not run), and otherwise the error of the last
  invocation made before the deadline.
\<close>

theorem awaitConverge_kth_invocation:
  assumes "0 < i" and "1 \<le> k"
    and "\<forall>j. 1 \<le> j \<and> j < k \<longrightarrow> p j \<noteq> None" and "p k = None"
  shows "((k - 1) * i < d \<longrightarrow> awaitConverge d i p = Some (None, (k - 1) * i)) \<and>
         (d \<le> (k - 1) * i \<longrightarrow>
            (\<exists>err. awaitConverge d i p = Some (Some err, d) \<and>
               ((d = 0 \<and> err = ContextDone) \<or>
                (\<exists>j. 1 \<le> j \<and> j < k \<and> (j - 1) * i < d \<and> d \<le> j * i \<and> p j = Some err))))"
proof (intro conjI impI)
  assume "(k - 1) * i < d"
  with assms awaitConverge_loop_success [of k 0 "k - 1" p 0 i d None]
  show "awaitConverge d i p = Some (None, (k - 1) * i)"
    by (simp add: awaitConverge_def)
next
  assume "d \<le> (k - 1) * i"
  with assms awaitConverge_loop_deadline [of k 0 "k - 1" p d i None]
  show "\<exists>err. awaitConverge d i p = Some (Some err, d) \<and>
               ((d = 0 \<and> err = ContextDone) \<or>
                (\<exists>j. 1 \<le> j \<and> j < k \<and> (j - 1) * i < d \<and> d \<le> j * i \<and> p j = Some err))"
    by (simp add: awaitConverge_def)
qed

theorem awaitConverge_kth_invocation_witness:
  "awaitConverge 10000 1000 (\<lambda>j. if j < 4 then Some (ExternalError ''2 of 3 tasks running'') else None)
     = Some (None, 3000) \<and>
   (\<exists>err. awaitConverge 2500 1000
             (\<lambda>j. if j < 4 then Some (ExternalError ''2 of 3 tasks running'') else None)
     = Some (Some err, 2500))"
proof -
  let ?p = "\<lambda>j::nat. if j < 4 then Some (ExternalError ''2 of 3 tasks running'') else None"
  have h: "\<forall>j. 1 \<le> j \<and> j < 4 \<longrightarrow> ?p j \<noteq> None" "?p 4 = None" by simp_all
  have a: "awaitConverge 10000 1000 ?p = Some (None, 3000)"
    using awaitConverge_kth_invocation [of 1000 4 ?p 10000] h by simp
  have b: "\<exists>err. awaitConverge 2500 1000 ?p = Some (Some err, 2500)"
    using awaitConverge_kth_invocation [of 1000 4 ?p 2500] h by auto
  from a b show ?thesis by blast
qed

section \<open>Machine names: distinct within a batch and across batches\<close>

lemma render_nat_not_Nil: "render_nat b n \<noteq> []"
  by (subst render_nat.simps) simp

lemma digit_char_inj:
  "a < 16 \<Longrightarrow> b < 16 \<Longrightarrow> digit_char a = digit_char b \<Longrightarrow> a = b"
proof -
  assume a: "a < 16" and b: "b < 16" and eq: "digit_char a = digit_char b"
  have d: "distinct ''0123456789ABCDEF''" by simp
  have l: "length ''0123456789ABCDEF'' = 16" by simp
  from eq have "''0123456789ABCDEF'' ! a = ''0123456789ABCDEF'' ! b"
    by (simp only: digit_char_def)
  with d l a b show "a = b"
    by (simp only: nth_eq_iff_index_eq)
qed

lemma digit_char_range:
  "a < 16 \<Longrightarrow> digit_char a \<in> set ''0123456789ABCDEF''"
  unfolding digit_char_def by (rule nth_mem) simp

lemma render_nat_chars:
  "2 \<le> b \<Longrightarrow> b \<le> 16 \<Longrightarrow> set (render_nat b n) \<subseteq> set ''0123456789ABCDEF''"
proof (induction b n rule: render_nat.induct)
  case (1 b n)
  show ?case
  proof (cases "n < b")
    case True
    with "1.prems" have "n < 16" by simp
    from digit_char_range [OF this] True show ?thesis
      by (subst render_nat.simps) simp
  next
    case False
    with "1.prems" have rec: "\<not> (n < b \<or> b < 2)" by simp
    have "0 < b" using "1.prems" by simp
    then have "n mod b < b" by (rule mod_less_divisor)
    with "1.prems" have "n mod b < 16" by linarith
    from digit_char_range [OF this] "1.IH" [OF rec "1.prems"] rec show ?thesis
      by (subst render_nat.simps) simp
  qed
qed

lemma render_nat_inj:
  "2 \<le> b \<Longrightarrow> b \<le> 16 \<Longrightarrow> render_nat b n = render_nat b m \<Longrightarrow> n = m"
proof (induction b n arbitrary: m rule: render_nat.induct)
  case (1 b n)
  have pos: "0 < b" using "1.prems" by simp
  show ?case
  proof (cases "n < b")
    case small: True
    then have n: "render_nat b n = [digit_char n]"
      by (subst render_nat.simps) simp
    show ?thesis
    proof (cases "m < b")
      case True
      then have "render_nat b m = [digit_char m]"
        by (subst render_nat.simps) simp
      with n "1.prems" have "digit_char n = digit_char m" by simp
      moreover have "n < 16" "m < 16" using small True "1.prems" by simp_all
      ultimately show ?thesis by (simp add: digit_char_inj)
    next
      case False
      with "1.prems" have "render_nat b m = render_nat b (m div b) @ [digit_char (m mod b)]"
        by (subst render_nat.simps) simp
      with n "1.prems" render_nat_not_Nil [of b "m div b"] show ?thesis by simp
    qed
  next
    case big: False
    with "1.prems" have rec: "\<not> (n < b \<or> b < 2)" by simp
    then have n: "render_nat b n = render_nat b (n div b) @ [digit_char (n mod b)]"
      by (subst render_nat.simps) simp
    show ?thesis
    proof (cases "m < b")
      case True
      then have "render_nat b m = [digit_char m]"
        by (subst render_nat.simps) simp
      with n "1.prems" render_nat_not_Nil [of b "n div b"] show ?thesis by simp
    next
      case False
      with "1.prems" have "render_nat b m = render_nat b (m div b) @ [digit_char (m mod b)]"
        by (subst render_nat.simps) simp
      with n "1.prems" have front: "render_nat b (n div b) = render_nat b (m div b)"
        and units: "digit_char (n mod b) = digit_char (m mod b)" by simp_all
      have b2: "2 \<le> b" and b16: "b \<le> 16" using "1.prems" by simp_all
      from "1.IH" [OF rec b2 b16 front] have q: "n div b = m div b" .
      have "n mod b < b" "m mod b < b" using pos by (rule mod_less_divisor)+
      with b16 have "n mod b < 16" "m mod b < 16" by linarith+
      with units have r: "n mod b = m mod b" by (simp add: digit_char_inj)
      from q r show ?thesis by (metis div_mult_mod_eq)
    qed
  qed
qed

lemma render_nat_no_lt: "CHR ''<'' \<notin> set (render_nat 16 n)"
proof
  assume "CHR ''<'' \<in> set (render_nat 16 n)"
  moreover have "set (render_nat 16 n) \<subseteq> set ''0123456789ABCDEF''"
    by (rule render_nat_chars) simp_all
  ultimately have "CHR ''<'' \<in> set ''0123456789ABCDEF''" by (rule set_mp [rotated])
  then show False by simp
qed

lemma render_id_inj: "render_id a = render_id b \<Longrightarrow> a = b"
proof -
  assume eq: "render_id a = render_id b"
  show "a = b"
  proof (cases a)
    case None
    show ?thesis
    proof (cases b)
      case (Some m)
      with None eq have "render_nat 16 m = ''<nil>''" by (simp add: render_id_def)
      with render_nat_no_lt [of m] show ?thesis by simp
    qed (simp add: None)
  next
    case (Some n)
    show ?thesis
    proof (cases b)
      case None
      with Some eq have "render_nat 16 n = ''<nil>''" by (simp add: render_id_def)
      with render_nat_no_lt [of n] show ?thesis by simp
    next
      case (Some m)
      with \<open>a = Some n\<close> eq have "render_nat 16 n = render_nat 16 m" by (simp add: render_id_def)
      then have "n = m" using render_nat_inj [of 16 n m] by simp
      with Some \<open>a = Some n\<close> show ?thesis by simp
    qed
  qed
qed

lemma render_nat_no_dash16: "CHR ''-'' \<notin> set (render_nat 16 n)"
proof
  assume "CHR ''-'' \<in> set (render_nat 16 n)"
  moreover have "set (render_nat 16 n) \<subseteq> set ''0123456789ABCDEF''"
    by (rule render_nat_chars) simp_all
  ultimately have "CHR ''-'' \<in> set ''0123456789ABCDEF''" by (rule set_mp [rotated])
  then show False by simp
qed

lemma render_id_no_dash: "CHR ''-'' \<notin> set (render_id a)"
  using render_nat_no_dash16 by (cases a) (simp_all add: render_id_def)

lemma render_nat_no_dash: "CHR ''-'' \<notin> set (render_nat 10 n)"
proof
  assume "CHR ''-'' \<in> set (render_nat 10 n)"
  moreover have "set (render_nat 10 n) \<subseteq> set ''0123456789ABCDEF''"
    by (rule render_nat_chars) simp_all
  ultimately have "CHR ''-'' \<in> set ''0123456789ABCDEF''" by (rule set_mp [rotated])
  then show False by simp
qed

lemma first_field:
  "x \<notin> set s \<Longrightarrow> x \<notin> set t \<Longrightarrow> s @ x # a = t @ x # b \<Longrightarrow> s = t \<and> a = b"
proof (induction s arbitrary: t)
  case Nil
  then show ?case by (cases t) auto
next
  case (Cons y s)
  then show ?case by (cases t) auto
qed

lemma last_field:
  "x \<notin> set s \<Longrightarrow> x \<notin> set t \<Longrightarrow> a @ x # s = b @ x # t \<Longrightarrow> a = b \<and> s = t"
proof -
  assume s: "x \<notin> set s" and t: "x \<notin> set t" and eq: "a @ x # s = b @ x # t"
  from eq have "rev (a @ x # s) = rev (b @ x # t)" by (rule arg_cong)
  then have eq': "rev s @ x # rev a = rev t @ x # rev b" by simp
  have "x \<notin> set (rev s)" "x \<notin> set (rev t)" using s t by simp_all
  from first_field [OF this eq'] show ?thesis by simp
qed

lemma machine_name_inj:
  "machine_name p i n = machine_name p' i' n' \<Longrightarrow> p = p' \<and> i = i' \<and> n = n'"
proof -
  assume "machine_name p i n = machine_name p' i' n'"
  then have eq: "(p @ ''-'' @ render_id i) @ CHR ''-'' # render_nat 10 n
               = (p' @ ''-'' @ render_id i') @ CHR ''-'' # render_nat 10 n'"
    by (simp add: machine_name_def)
  from last_field [OF render_nat_no_dash render_nat_no_dash eq]
  have front: "p @ CHR ''-'' # render_id i = p' @ CHR ''-'' # render_id i'"
    and idx: "render_nat 10 n = render_nat 10 n'" by simp_all
  from last_field [OF render_id_no_dash render_id_no_dash front]
  have "p = p'" "render_id i = render_id i'" by simp_all
  moreover from idx have "n = n'" using render_nat_inj [of 10 n n'] by simp
  ultimately show ?thesis by (simp add: render_id_inj)
qed


lemma start_wait_ip_name:
  "start_wait_ip e deadline m w = (found, m', w') \<Longrightarrow> MachineName m' = MachineName m"
proof (induction e deadline m w rule: start_wait_ip.induct)
  case (1 e deadline m w)
  show ?case
  proof (cases "deadline \<le> now w")
    case True
    with "1.prems" show ?thesis by (simp add: start_wait_ip.simps)
  next
    case False
    obtain data err w1 where run:
      "CombinedOutput e [''virsh'', ''-q'', ''domifaddr'', GetName m] w = (data, err, w1)"
      by (cases "CombinedOutput e [''virsh'', ''-q'', ''domifaddr'', GetName m] w") auto
    show ?thesis
    proof (cases "if err = None
                  then (case split_lines (TrimSpace e data) of [] \<Rightarrow> None | l # ls \<Rightarrow> ip_regex e l)
                  else None")
      case None
      with False run "1.prems" have "start_wait_ip e deadline m (Sleep 1000 w1) = (found, m', w')"
        by (subst (asm) start_wait_ip.simps) (simp add: Let_def)
      with "1.IH" [OF False run [symmetric] refl refl refl None] show ?thesis by simp
    next
      case (Some a)
      with False run "1.prems" show ?thesis
        by (subst (asm) start_wait_ip.simps) (auto simp: Let_def)
    qed
  qed
qed

lemma Start_name: "Start e m w = (err, m', w') \<Longrightarrow> MachineName m' = MachineName m"
  by (auto simp: Start_def Let_def split: prod.splits option.splits bool.splits if_splits
           dest: start_wait_ip_name)

lemma cloneDisk_name: "cloneDisk e m w = (err, m', w') \<Longrightarrow> MachineName m' = MachineName m"
  by (auto simp: cloneDisk_def Let_def split: prod.splits option.splits if_splits)

lemma create_machine_name:
  "create_machine e g baseOS i index w = (Inr m, w') \<Longrightarrow>
     MachineName m = machine_name (NamePrefix e) i index"
  by (auto simp: create_machine_def Let_def split: prod.splits option.splits sum.splits
           dest!: Start_name cloneDisk_name)

lemma create_loop_names:
  "create_loop e g baseOS i indices acc w = (Inr machines, w') \<Longrightarrow>
     map MachineName machines = map MachineName acc @ map (machine_name (NamePrefix e) i) indices"
proof (induction indices arbitrary: acc w)
  case Nil
  then show ?case by simp
next
  case (Cons index rest)
  then show ?case
    by (auto split: prod.splits sum.splits dest: create_machine_name)
qed

lemma machine_names_distinct: "distinct (map (machine_name p i) [0..<n])"
  by (auto simp: distinct_map inj_on_def dest: machine_name_inj)

text \<open>
  C8. A batch that is created has its machines named, in order, \<open>NamePrefix-ID-index\<close>
  for the indices 0 to N-1, all with the one identifier \<open>ID\<close> that the goroutine drew
  first, printed in upper-case hexadecimal. The N names of a batch are pairwise
  distinct, and two batches whose identifiers differ have no name in common, whatever
  their sizes and prefixes.
\<close>

theorem batch_names_distinct:
  "(create_phase e g linuxCount baseOS w = (Inr machines, w') \<longrightarrow>
      map MachineName machines =
        map (machine_name (NamePrefix e) (rand_int e (rand_draws w) 0xffffff)) [0..<nat linuxCount]) \<and>
   length (map (machine_name p i) [0..<n]) = n \<and>
   distinct (map (machine_name p i) [0..<n]) \<and>
   (\<forall>k<n. map (machine_name p i) [0..<n] ! k = p @ ''-'' @ render_id i @ ''-'' @ render_nat 10 k) \<and>
   (i \<noteq> i' \<longrightarrow>
      set (map (machine_name p i) [0..<n]) \<inter> set (map (machine_name p' i') [0..<n']) = {})"
proof (intro conjI impI allI)
  assume "create_phase e g linuxCount baseOS w = (Inr machines, w')"
  then show "map MachineName machines =
        map (machine_name (NamePrefix e) (rand_int e (rand_draws w) 0xffffff)) [0..<nat linuxCount]"
    using create_loop_names [of e g baseOS _ _ "[]"]
    by (simp add: create_phase_def Let_def logf_def)
next
  show "distinct (map (machine_name p i) [0..<n])" by (rule machine_names_distinct)
next
  fix k assume "k < n"
  then show "map (machine_name p i) [0..<n] ! k = p @ ''-'' @ render_id i @ ''-'' @ render_nat 10 k"
    by (simp add: machine_name_def)
next
  assume "i \<noteq> i'"
  then show "set (map (machine_name p i) [0..<n]) \<inter> set (map (machine_name p' i') [0..<n']) = {}"
    by (auto dest: machine_name_inj)
qed simp

lemmas host_eval =
  host_env_def host_world_def host_globals_def ascii_space_def
  CombinedOutput_def MachineSSH_def cloneDisk_def define_vm_def Start_def
  Stat_def WriteFile_def os_Remove_def logf_def logp_def Sleep_def Let_def GetName_def
  create_machine_def machine_name_def render_id_def digit_char_def ssh_args_def
  start_wait_ip.simps start_wait_ssh.simps kill_wait.simps render_nat.simps

theorem batch_names_distinct_witness:
  "map MachineName
     (projr (fst (create_phase host_env host_globals 2 ''/e2e/ubuntu16.04.qcow2'' host_world)))
     = [''e2e-BEEF-0'', ''e2e-BEEF-1''] \<and>
   set (map (machine_name ''e2e'' (Some 0xBEEF)) [0..<2])
     \<inter> set (map (machine_name ''e2e'' (Some 0xBEEE)) [0..<3]) = {}"
proof -
  let ?r = "create_phase host_env host_globals 2 ''/e2e/ubuntu16.04.qcow2'' host_world"
  have ok: "\<not> isl (fst ?r)"
    by (simp add: host_eval create_phase_def upt_rec numeral_2_eq_2)
  then have made: "?r = (Inr (projr (fst ?r)), snd ?r)"
    by (cases ?r; cases "fst ?r") auto
  have ids: "Some (0xBEEF::nat) \<noteq> Some 0xBEEE" by simp
  from batch_names_distinct
         [of host_env host_globals 2 "''/e2e/ubuntu16.04.qcow2''" host_world
             "projr (fst ?r)" "snd ?r" "''e2e''" "Some 0xBEEF" 2 "Some 0xBEEE" "''e2e''" 3]
       made ids
  have "map MachineName (projr (fst ?r)) =
          map (machine_name (NamePrefix host_env) (rand_int host_env (rand_draws host_world) 0xffffff))
            [0..<nat 2]"
    and "set (map (machine_name ''e2e'' (Some 0xBEEF)) [0..<2])
           \<inter> set (map (machine_name ''e2e'' (Some 0xBEEE)) [0..<3]) = {}"
    by blast+
  then show ?thesis
    by (simp add: host_env_def host_world_def machine_name_def render_id_def digit_char_def
          render_nat.simps upt_rec numeral_2_eq_2)
qed

section \<open>Domain definition: the descriptor file\<close>

lemma define_vm_after_write:
  "write_file e (length (cmd_log w)) (filepath_join e (path_dir e (DiskPath m)) (MachineName m @ ''.xml''))
     = Written \<Longrightarrow>
   render_template e m = Inr xml \<Longrightarrow>
   filepath_join e (path_dir e (DiskPath m)) (MachineName m @ ''.xml'') \<notin> files (snd (define_vm e m w))"
  by (simp add: define_vm_def WriteFile_def CombinedOutput_def os_Remove_def logf_def Let_def
           split: prod.splits option.splits)

lemma define_vm_template_failure:
  "render_template e m = Inl err \<Longrightarrow>
   fst (define_vm e m w) = Some err \<and> files (snd (define_vm e m w)) = files w \<and>
   cmd_log (snd (define_vm e m w)) = cmd_log w"
  by (simp add: define_vm_def logf_def Let_def)

text \<open>
  C6, at a failing input. On the host with a full disk, \<open>define\<close> of the machine \<open>vm\<close>
  with its disk at \<open>/e2e/vm.qcow2\<close> returns the error of the write, and the descriptor
  \<open>/e2e/vm.xml\<close>, which was not there before, is there afterwards: the return on a failed
  write comes before \<open>defer os.Remove(defFile)\<close>.
\<close>

theorem define_vm_failed_write_leaves_descriptor:
  "fst (define_vm full_disk_env (host_machine ''vm'') host_world) = Some (OSError ''/e2e/vm.xml'') \<and>
   ''/e2e/vm.xml'' \<notin> files host_world \<and>
   ''/e2e/vm.xml'' \<in> files (snd (define_vm full_disk_env (host_machine ''vm'') host_world))"
  by (simp add: define_vm_def WriteFile_def logf_def Let_def full_disk_env_def host_env_def
        host_machine_def host_world_def)

section \<open>Start: what a timeout leaves behind\<close>

lemma start_wait_ip_log:
  "start_wait_ip e deadline m w = (found, m', w') \<Longrightarrow>
     (\<exists>cmds. cmd_log w' = cmd_log w @ cmds \<and>
        (\<forall>c\<in>set cmds. c = [''virsh'', ''-q'', ''domifaddr'', MachineName m])) \<and>
     (\<not> found \<longrightarrow> deadline \<le> now w')"
proof (induction e deadline m w rule: start_wait_ip.induct)
  case (1 e deadline m w)
  show ?case
  proof (cases "deadline \<le> now w")
    case True
    with "1.prems" show ?thesis by (simp add: start_wait_ip.simps)
  next
    case False
    obtain data err w1 where run:
      "CombinedOutput e [''virsh'', ''-q'', ''domifaddr'', GetName m] w = (data, err, w1)"
      by (cases "CombinedOutput e [''virsh'', ''-q'', ''domifaddr'', GetName m] w") auto
    then have log1: "cmd_log w1 = cmd_log w @ [[''virsh'', ''-q'', ''domifaddr'', MachineName m]]"
      by (auto simp: CombinedOutput_def Let_def GetName_def)
    show ?thesis
    proof (cases "if err = None
                  then (case split_lines (TrimSpace e data) of [] \<Rightarrow> None | l # ls \<Rightarrow> ip_regex e l)
                  else None")
      case None
      with False run "1.prems" have "start_wait_ip e deadline m (Sleep 1000 w1) = (found, m', w')"
        by (subst (asm) start_wait_ip.simps) (simp add: Let_def)
      from "1.IH" [OF False run [symmetric] refl refl refl None this] log1
      show ?thesis by (auto simp: Sleep_def)
    next
      case (Some a)
      with False run "1.prems" have "found" "w' = w1"
        by (subst (asm) start_wait_ip.simps; simp add: Let_def)+
      with log1 show ?thesis by simp
    qed
  qed
qed

lemma start_wait_ssh_log:
  "start_wait_ssh e deadline m w = (found, w') \<Longrightarrow>
     (\<exists>cmds. cmd_log w' = cmd_log w @ cmds \<and> (\<forall>c\<in>set cmds. c = ssh_args m ''uptime'')) \<and>
     (\<not> found \<longrightarrow> deadline \<le> now w')"
proof (induction e deadline m w rule: start_wait_ssh.induct)
  case (1 e deadline m w)
  show ?case
  proof (cases "deadline \<le> now w")
    case True
    with "1.prems" show ?thesis by (simp add: start_wait_ssh.simps)
  next
    case False
    obtain out err w1 where run: "MachineSSH e m ''uptime'' w = (out, err, w1)"
      by (cases "MachineSSH e m ''uptime'' w") auto
    then have log1: "cmd_log w1 = cmd_log w @ [ssh_args m ''uptime'']"
      by (auto simp: MachineSSH_def CombinedOutput_def logf_def Let_def)
    show ?thesis
    proof (cases err)
      case None
      with False run "1.prems" have "found" "w' = logf DebugLevel ''%s has been up %s'' [AStr (GetName m), AStr out] w1"
        by (subst (asm) start_wait_ssh.simps; simp)+
      with log1 show ?thesis by (simp add: logf_def)
    next
      case (Some x)
      with False run "1.prems" have "start_wait_ssh e deadline m (Sleep 500 w1) = (found, w')"
        by (subst (asm) start_wait_ssh.simps) simp
      from "1.IH" [OF False run [symmetric] refl Some this] log1
      show ?thesis by (auto simp: Sleep_def)
    qed
  qed
qed


text \<open>
  C7. \<open>Start\<close> runs \<open>virsh start\<close>, and after it nothing but \<open>virsh -q domifaddr\<close> on
  the machine and \<open>ssh ... uptime\<close>: no subprocess it starts is \<open>virsh shutdown\<close>,
  \<open>virsh destroy\<close> or \<open>virsh undefine\<close>. When the power-on succeeded and the two
  polling loops have not both finished before the deadline, 60 seconds after the
  power-on, \<open>Start\<close> returns the timeout error, and it does so no sooner than 60
  seconds after it was called.
\<close>

theorem Start_timeout_leaves_machine:
  assumes "Start e m w = (err, m', w')"
  shows "(\<exists>cmds. cmd_log w' = cmd_log w @ [''virsh'', ''start'', MachineName m] # cmds \<and>
            (\<forall>c\<in>set cmds.
               (c = [''virsh'', ''-q'', ''domifaddr'', MachineName m] \<or> (\<exists>m1. c = ssh_args m1 ''uptime''))
               \<and> take 2 c \<noteq> [''virsh'', ''shutdown''] \<and> take 2 c \<noteq> [''virsh'', ''destroy'']
               \<and> take 2 c \<noteq> [''virsh'', ''undefine''])) \<and>
         (\<forall>out w1. CombinedOutput e [''virsh'', ''start'', MachineName m] w = (out, None, w1) \<and>
            \<not> (\<exists>m1 w3 w5.
                  start_wait_ip e (now w1 + 60000) m
                      (logf DebugLevel ''Waiting for IP to appear for %s'' [AStr (GetName m)] w1)
                    = (True, m1, w3) \<and>
                  start_wait_ssh e (now w1 + 60000) m1
                      (logf DebugLevel ''Machine %s has IP %s'' [AStr (GetName m1), AStr (ip m1)] w3)
                    = (True, w5) \<and>
                  now w5 < now w1 + 60000)
            \<longrightarrow> err = Some (ErrVerifyTimeout (MachineName m)) \<and> now w + 60000 \<le> now w')"
proof -
  obtain out serr w1 where run:
    "CombinedOutput e [''virsh'', ''start'', MachineName m] w = (out, serr, w1)"
    by (cases "CombinedOutput e [''virsh'', ''start'', MachineName m] w") auto
  then have log1: "cmd_log w1 = cmd_log w @ [[''virsh'', ''start'', MachineName m]]"
    and now1: "now w \<le> now w1"
    by (auto simp: CombinedOutput_def Let_def)
  let ?dl = "now w1 + 60000"
  let ?w2 = "logf DebugLevel ''Waiting for IP to appear for %s'' [AStr (GetName m)] w1"
  have ssh_no: "take 2 (ssh_args m1 ''uptime'') \<noteq> [''virsh'', x]" for m1 x
    by (simp add: ssh_args_def)
  show ?thesis
  proof (cases serr)
    case (Some x)
    with assms run have "w' = logp ErrorLevel [AStr out] w1"
      by (simp add: Start_def)
    with log1 Some run show ?thesis by (simp add: logp_def)
  next
    case None
    obtain f1 m1 w3 where ipw: "start_wait_ip e ?dl m ?w2 = (f1, m1, w3)"
      by (cases "start_wait_ip e ?dl m ?w2") auto
    from start_wait_ip_log [OF ipw] obtain c1 where
      log3: "cmd_log w3 = cmd_log w1 @ c1"
      and c1: "\<forall>c\<in>set c1. c = [''virsh'', ''-q'', ''domifaddr'', MachineName m]"
      and late3: "\<not> f1 \<longrightarrow> ?dl \<le> now w3"
      by (auto simp: logf_def)
    show ?thesis
    proof (cases f1)
      case False
      with assms run None ipw have res: "err = Some (ErrVerifyTimeout (GetName m1))" "w' = w3"
        by (auto simp: Start_def Let_def)
      from start_wait_ip_name [OF ipw] have "MachineName m1 = MachineName m" .
      with res log1 log3 c1 late3 False now1 run None ipw show ?thesis
        by (auto simp: GetName_def)
    next
      case True
      let ?w4 = "logf DebugLevel ''Machine %s has IP %s'' [AStr (GetName m1), AStr (ip m1)] w3"
      obtain f2 w5 where sshw: "start_wait_ssh e ?dl m1 ?w4 = (f2, w5)"
        by (cases "start_wait_ssh e ?dl m1 ?w4") auto
      from start_wait_ssh_log [OF sshw] obtain c2 where
        log5: "cmd_log w5 = cmd_log w3 @ c2"
        and c2: "\<forall>c\<in>set c2. c = ssh_args m1 ''uptime''"
        and late5: "\<not> f2 \<longrightarrow> ?dl \<le> now w5"
        by (auto simp: logf_def)
      from assms run None ipw True sshw have w': "w' = w5"
        and res: "err = (if f2 \<and> now w5 < ?dl then None else Some (ErrVerifyTimeout (GetName m1)))"
        by (cases f2; auto simp: Start_def Let_def split: if_splits)+
      from start_wait_ip_name [OF ipw] have name: "MachineName m1 = MachineName m" .
      have cmds: "cmd_log w' = cmd_log w @ [''virsh'', ''start'', MachineName m] # (c1 @ c2)"
        using w' log1 log3 log5 by simp
      have each: "\<forall>c\<in>set (c1 @ c2).
               (c = [''virsh'', ''-q'', ''domifaddr'', MachineName m] \<or> (\<exists>m1. c = ssh_args m1 ''uptime''))
               \<and> take 2 c \<noteq> [''virsh'', ''shutdown''] \<and> take 2 c \<noteq> [''virsh'', ''destroy'']
               \<and> take 2 c \<noteq> [''virsh'', ''undefine'']"
        using c1 c2 ssh_no by auto
      have timeout: "err = Some (ErrVerifyTimeout (MachineName m)) \<and> now w + 60000 \<le> now w'"
        if "\<not> (f2 \<and> now w5 < ?dl)"
        using that res w' name late5 now1 by (auto simp: GetName_def)
      show ?thesis
      proof (intro conjI allI impI)
        show "\<exists>cmds. cmd_log w' = cmd_log w @ [''virsh'', ''start'', MachineName m] # cmds \<and>
            (\<forall>c\<in>set cmds.
               (c = [''virsh'', ''-q'', ''domifaddr'', MachineName m] \<or> (\<exists>m1. c = ssh_args m1 ''uptime''))
               \<and> take 2 c \<noteq> [''virsh'', ''shutdown''] \<and> take 2 c \<noteq> [''virsh'', ''destroy'']
               \<and> take 2 c \<noteq> [''virsh'', ''undefine''])"
          using cmds each by blast
      next
        fix out' w1'
        assume h: "CombinedOutput e [''virsh'', ''start'', MachineName m] w = (out', None, w1') \<and>
            \<not> (\<exists>m1 w3 w5.
                  start_wait_ip e (now w1' + 60000) m
                      (logf DebugLevel ''Waiting for IP to appear for %s'' [AStr (GetName m)] w1')
                    = (True, m1, w3) \<and>
                  start_wait_ssh e (now w1' + 60000) m1
                      (logf DebugLevel ''Machine %s has IP %s'' [AStr (GetName m1), AStr (ip m1)] w3)
                    = (True, w5) \<and>
                  now w5 < now w1' + 60000)"
        with run have "w1' = w1" by simp
        with h ipw True sshw have "\<not> (f2 \<and> now w5 < ?dl)" by auto
        from timeout [OF this]
        show "err = Some (ErrVerifyTimeout (MachineName m))" "now w + 60000 \<le> now w'" by simp_all
      qed
    qed
  qed
qed

theorem Start_timeout_leaves_machine_witness:
  "fst (Start slow_env (host_machine ''vm'') host_world) = Some (ErrVerifyTimeout ''vm'') \<and>
   cmd_log (snd (snd (Start slow_env (host_machine ''vm'') host_world)))
     = [[''virsh'', ''start'', ''vm''], [''virsh'', ''-q'', ''domifaddr'', ''vm''],
        ssh_args ((host_machine ''vm'')\<lparr>ip := ''10.0.0.5''\<rparr>) ''uptime'']"
proof -
  let ?r = "Start slow_env (host_machine ''vm'') host_world"
  have r: "?r = (fst ?r, fst (snd ?r), snd (snd ?r))" by simp
  have ev: "fst ?r = Some (ErrVerifyTimeout ''vm'') \<and>
   cmd_log (snd (snd ?r))
     = [[''virsh'', ''start'', ''vm''], [''virsh'', ''-q'', ''domifaddr'', ''vm''],
        ssh_args ((host_machine ''vm'')\<lparr>ip := ''10.0.0.5''\<rparr>) ''uptime'']"
    by (simp add: slow_env_def host_machine_def host_eval)
  from Start_timeout_leaves_machine [OF r] ev show ?thesis by simp
qed

section \<open>Machine set creation: all or nothing\<close>






section \<open>Machine set creation: a failed verification\<close>











section \<open>Cluster bootstrap: the calls made\<close>






end
